theory Spec2Isabelle
  imports Complex_Main
begin

section \<open>JavaScript numbers\<close>

text \<open>
  The scheduler of \<^verbatim>\<open>src/inference/asmc.js\<close> computes with JavaScript numbers:
  log-weights that may be \<^verbatim>\<open>-Infinity\<close>, child counts produced by
  \<^verbatim>\<open>Math.ceil\<close> and \<^verbatim>\<open>Math.floor\<close>, and the results of
  \<^verbatim>\<open>Math.log\<close> and \<^verbatim>\<open>Math.exp\<close>. A number is modelled as one of the
  four kinds of value a double can be: not-a-number, the two infinities, or a finite
  value. Finite values are real numbers: rounding, overflow and the sign of zero are not
  modelled (a division by zero takes the divisor to be \<^verbatim>\<open>+0\<close>). The special
  values follow IEEE 754 as ECMAScript prescribes it.
\<close>

datatype jsnum = NaN | NegInf | Fin real | PosInf

text \<open>\<^verbatim>\<open>a + b\<close>\<close>

fun jsadd :: "jsnum \<Rightarrow> jsnum \<Rightarrow> jsnum" where
  "jsadd NaN _ = NaN"
| "jsadd _ NaN = NaN"
| "jsadd NegInf PosInf = NaN"
| "jsadd PosInf NegInf = NaN"
| "jsadd NegInf _ = NegInf"
| "jsadd _ NegInf = NegInf"
| "jsadd PosInf _ = PosInf"
| "jsadd _ PosInf = PosInf"
| "jsadd (Fin a) (Fin b) = Fin (a + b)"

text \<open>\<^verbatim>\<open>-a\<close>\<close>

fun jsneg :: "jsnum \<Rightarrow> jsnum" where
  "jsneg NaN = NaN"
| "jsneg NegInf = PosInf"
| "jsneg PosInf = NegInf"
| "jsneg (Fin a) = Fin (- a)"

text \<open>\<^verbatim>\<open>a - b\<close>\<close>

definition jssub :: "jsnum \<Rightarrow> jsnum \<Rightarrow> jsnum" where
  "jssub a b = jsadd a (jsneg b)"

text \<open>The sign of a number that is not NaN: \<open>-1\<close>, \<open>0\<close> or \<open>1\<close>.\<close>

fun jssgn :: "jsnum \<Rightarrow> real" where
  "jssgn NaN = 0"
| "jssgn NegInf = - 1"
| "jssgn PosInf = 1"
| "jssgn (Fin a) = sgn a"

text \<open>\<^verbatim>\<open>a * b\<close>: an infinity times zero is NaN.\<close>

fun jsmul :: "jsnum \<Rightarrow> jsnum \<Rightarrow> jsnum" where
  "jsmul NaN _ = NaN"
| "jsmul _ NaN = NaN"
| "jsmul (Fin a) (Fin b) = Fin (a * b)"
| "jsmul a b =
     (if jssgn a * jssgn b = 0 then NaN
      else if jssgn a * jssgn b > 0 then PosInf else NegInf)"

text \<open>
  \<^verbatim>\<open>a / b\<close>: a finite number over an infinity is zero, an infinity over an
  infinity and zero over zero are NaN, and a non-zero number over zero is an infinity.
\<close>

fun jsdiv :: "jsnum \<Rightarrow> jsnum \<Rightarrow> jsnum" where
  "jsdiv NaN _ = NaN"
| "jsdiv _ NaN = NaN"
| "jsdiv (Fin a) (Fin b) =
     (if b \<noteq> 0 then Fin (a / b)
      else if a = 0 then NaN else if a > 0 then PosInf else NegInf)"
| "jsdiv (Fin a) _ = Fin 0"
| "jsdiv a (Fin b) =
     (if jssgn a * (if b < 0 then - 1 else 1) > 0 then PosInf else NegInf)"
| "jsdiv _ _ = NaN"

text \<open>\<^verbatim>\<open>a < b\<close>: false as soon as one side is NaN.\<close>

fun jslt :: "jsnum \<Rightarrow> jsnum \<Rightarrow> bool" where
  "jslt NaN _ = False"
| "jslt _ NaN = False"
| "jslt _ NegInf = False"
| "jslt NegInf _ = True"
| "jslt PosInf _ = False"
| "jslt _ PosInf = True"
| "jslt (Fin a) (Fin b) = (a < b)"

text \<open>\<^verbatim>\<open>a > b\<close>, \<^verbatim>\<open>a <= b\<close> and \<^verbatim>\<open>a >= b\<close>\<close>

definition jsgt :: "jsnum \<Rightarrow> jsnum \<Rightarrow> bool" where
  "jsgt a b = jslt b a"

definition jsle :: "jsnum \<Rightarrow> jsnum \<Rightarrow> bool" where
  "jsle a b = (a \<noteq> NaN \<and> b \<noteq> NaN \<and> \<not> jslt b a)"

definition jsge :: "jsnum \<Rightarrow> jsnum \<Rightarrow> bool" where
  "jsge a b = jsle b a"

text \<open>\<^verbatim>\<open>Math.log\<close>, \<^verbatim>\<open>Math.exp\<close>, \<^verbatim>\<open>Math.ceil\<close>, \<^verbatim>\<open>Math.floor\<close>\<close>

fun Math_log :: "jsnum \<Rightarrow> jsnum" where
  "Math_log NaN = NaN"
| "Math_log NegInf = NaN"
| "Math_log PosInf = PosInf"
| "Math_log (Fin a) = (if a < 0 then NaN else if a = 0 then NegInf else Fin (ln a))"

fun Math_exp :: "jsnum \<Rightarrow> jsnum" where
  "Math_exp NaN = NaN"
| "Math_exp NegInf = Fin 0"
| "Math_exp PosInf = PosInf"
| "Math_exp (Fin a) = Fin (exp a)"

fun Math_ceil :: "jsnum \<Rightarrow> jsnum" where
  "Math_ceil (Fin a) = Fin (of_int \<lceil>a\<rceil>)"
| "Math_ceil a = a"

fun Math_floor :: "jsnum \<Rightarrow> jsnum" where
  "Math_floor (Fin a) = Fin (of_int \<lfloor>a\<rfloor>)"
| "Math_floor a = a"

text \<open>
  \<^verbatim>\<open>Math.max.apply(null, a)\<close>: \<^verbatim>\<open>-Infinity\<close> for the empty array, NaN as soon
  as one element is NaN.
\<close>

fun jsmax :: "jsnum \<Rightarrow> jsnum \<Rightarrow> jsnum" where
  "jsmax NaN _ = NaN"
| "jsmax _ NaN = NaN"
| "jsmax a b = (if jslt a b then b else a)"

definition Math_max :: "jsnum list \<Rightarrow> jsnum" where
  "Math_max a = foldl jsmax NegInf a"

text \<open>An array length or another integer, as a number.\<close>

definition num :: "int \<Rightarrow> jsnum" where
  "num n = Fin (of_int n)"

section \<open>\<^verbatim>\<open>src/util.js\<close>\<close>

text \<open>
  \<^verbatim>\<open>
  function logsumexp(a) {
    var m = Math.max.apply(null, a);
    var sum = 0;
    for (var i = 0; i < a.length; ++i) {
      sum += (a[i] === -Infinity ? 0 : Math.exp(a[i] - m));
    }
    return m + Math.log(sum);
  }
  \<close>
  The loop is a left fold over the array, with \<open>sum\<close> as its accumulator.
\<close>

definition logsumexp :: "jsnum list \<Rightarrow> jsnum" where
  "logsumexp a =
     (let m = Math_max a;
          sum = foldl (\<lambda>sum ai. jsadd sum (if ai = NegInf then Fin 0 else Math_exp (jssub ai m)))
                  (Fin 0) a
      in jsadd m (Math_log sum))"

text \<open>
  \<^verbatim>\<open>module.exports\<close> of \<^verbatim>\<open>src/util.js\<close> lists every function the module
  offers to \<^verbatim>\<open>require('../util.js')\<close>. A property that is not listed is
  \<^verbatim>\<open>undefined\<close>, and calling it throws a \<^verbatim>\<open>TypeError\<close>.
\<close>

definition util_exports :: "string list" where
  "util_exports =
     [''cpsForEach'', ''gensym'', ''logsumexp'', ''indexOfPred'', ''lastIndexOfPred'',
      ''makeGensym'', ''normalizeArray'', ''normalizeHist'', ''prettyJSON'',
      ''runningInBrowser'', ''sum'', ''histsApproximatelyEqual'']"

section \<open>\<^verbatim>\<open>src/inference/asmc.js\<close>: data\<close>

text \<open>
  The errors the JavaScript runtime raises in the scheduler: calling a property of
  \<^verbatim>\<open>util\<close> that is not a function, and reading a property of
  \<^verbatim>\<open>undefined\<close>. The source has no \<^verbatim>\<open>throw\<close> of its own.
\<close>

datatype error = NotAFunction string | PropertyOfUndefined

text \<open>
  A particle, with the fields of the object literals in \<^verbatim>\<open>initParticle\<close> and
  \<^verbatim>\<open>copyOneParticle\<close>. Continuations, stores and return values are opaque to the
  scheduler: they are type parameters. \<^verbatim>\<open>undefined\<close> is \<open>None\<close>. The field
  \<^verbatim>\<open>value\<close> is named \<open>retval\<close> here.
\<close>

record ('k, 's, 'v) particle =
  continuation :: 'k
  weight :: jsnum
  finalWeight :: jsnum
  completed :: bool
  factorIndex :: "nat option"
  retval :: "'v option"
  numChildrenToSpawn :: jsnum
  multiplicity :: jsnum
  store :: 's

text \<open>An entry of the observation ledger \<^verbatim>\<open>obsWeights[n]\<close>.\<close>

record det =
  wbar :: jsnum
  mnk :: jsnum

text \<open>
  The fields of the \<^verbatim>\<open>aSMC\<close> object that the scheduler reads and writes.
  \<^verbatim>\<open>this.store\<close> is named \<open>this_store\<close>. \<^verbatim>\<open>bufferSize\<close> and
  \<^verbatim>\<open>numParticles\<close> are integers, the counts the header of the file describes.
  The outer continuation \<^verbatim>\<open>this.k\<close> and the saved coroutine are not modelled.
\<close>

record ('k, 's, 'v) asmc =
  buffer :: "('k, 's, 'v) particle list"
  bufferSize :: int
  numParticles :: int
  obsWeights :: "nat \<rightharpoonup> det list"
  exitedParticles :: "('k, 's, 'v) particle list"
  exitK :: 'k
  this_store :: 's
  oldStore :: 's
  activeParticle :: "('k, 's, 'v) particle option"

text \<open>
  What a hook hands control to when it returns: \<^verbatim>\<open>p.continuation(p.store)\<close>, the
  model code of the active particle, or \<^verbatim>\<open>this.k(this.oldStore, dist)\<close>, the end
  of inference, of which the store and \<^verbatim>\<open>dist.normalizationConstant\<close> are kept.
\<close>

datatype ('k, 's) outcome = Resume 'k 's | Return 's jsnum

section \<open>\<^verbatim>\<open>src/inference/asmc.js\<close>: operations\<close>

text \<open>\<^verbatim>\<open>_.clone\<close> copies a store; a copy of a value is the value.\<close>

definition copyOneParticle :: "('k, 's, 'v) particle \<Rightarrow> ('k, 's, 'v) particle" where
  "copyOneParticle particle =
     \<lparr>continuation = continuation particle,
      weight = weight particle,
      finalWeight = finalWeight particle,
      completed = completed particle,
      factorIndex = factorIndex particle,
      retval = retval particle,
      numChildrenToSpawn = Fin 1,
      multiplicity = multiplicity particle,
      store = store particle\<rparr>"

definition initParticle :: "'s \<Rightarrow> 'k \<Rightarrow> ('k, 's, 'v) particle" where
  "initParticle s cont =
     \<lparr>continuation = cont,
      weight = Fin 0,
      finalWeight = Fin 0,
      completed = False,
      factorIndex = None,
      retval = None,
      numChildrenToSpawn = Fin 0,
      multiplicity = Fin 1,
      store = s\<rparr>"

text \<open>The end of \<^verbatim>\<open>control\<close>: \<^verbatim>\<open>this.activeParticle = p; return p.continuation(p.store)\<close>.\<close>

definition launch ::
  "('k, 's, 'v) asmc \<Rightarrow> ('k, 's, 'v) particle \<Rightarrow> error + ('k, 's, 'v) asmc \<times> ('k, 's) outcome" where
  "launch st p = Inr (st\<lparr>activeParticle := Some p\<rparr>, Resume (continuation p) (store p))"

text \<open>
  \<^verbatim>\<open>aSMC.prototype.control(numP)\<close>. The argument \<open>u\<close> is the value of
  \<^verbatim>\<open>Math.random()\<close>, a number in \<open>[0, 1)\<close>. Reading
  \<^verbatim>\<open>launchP.numChildrenToSpawn\<close> of an index outside the buffer throws. The last
  branch calls \<^verbatim>\<open>util.deleteIndex\<close>, which \<^verbatim>\<open>src/util.js\<close> does not
  export: the call throws before \<^verbatim>\<open>this.buffer\<close> is assigned.
\<close>

definition control ::
  "('k, 's, 'v) asmc \<Rightarrow> int option \<Rightarrow> real \<Rightarrow> error + ('k, 's, 'v) asmc \<times> ('k, 's) outcome" where
  "control this numP u =
     (let this1 = this\<lparr>numParticles :=
                    (case numP of None \<Rightarrow> numParticles this
                     | Some n \<Rightarrow> numParticles this + n)\<rparr>;
          i = \<lfloor>(of_int (int (length (buffer this1))) + 1) * u\<rfloor>
      in if i = int (length (buffer this1))
         then launch this1 (initParticle (this_store this1) (exitK this1))
         else if i < 0 \<or> int (length (buffer this1)) < i then Inl PropertyOfUndefined
         else
           (let launchP = buffer this1 ! nat i
            in if jsgt (numChildrenToSpawn launchP) (Fin 1)
               then launch
                      (this1\<lparr>buffer := (buffer this1)
                          [nat i := launchP\<lparr>numChildrenToSpawn :=
                                      jssub (numChildrenToSpawn launchP) (Fin 1)\<rparr>]\<rparr>)
                      (copyOneParticle launchP)
               else Inl (NotAFunction ''util.deleteIndex'')))"

text \<open>\<^verbatim>\<open>aSMC.prototype.sample\<close> calls \<^verbatim>\<open>cc\<close> at once and touches no field: it has no model.\<close>

text \<open>
  In \<^verbatim>\<open>aSMC.prototype.factor\<close>, the second branch (\<^verbatim>\<open>lk\<close> is defined) first
  computes the reference weight:
  \<^verbatim>\<open>
  var denom = lk.length + currMultiplicity; // k - 1 + Ckn
  var prevWBar = lk[lk.length-1].wbar;
  var wbar = util.logsumexp([Math.log(lk.length / denom) + prevWBar,
                             Math.log(currMultiplicity / denom) + currWeight])
  \<close>
\<close>

definition new_wbar :: "det list \<Rightarrow> jsnum \<Rightarrow> jsnum \<Rightarrow> jsnum" where
  "new_wbar lk currMultiplicity currWeight =
     (let denom = jsadd (num (int (length lk))) currMultiplicity;
          prevWBar = wbar (last lk)
      in logsumexp [jsadd (Math_log (jsdiv (num (int (length lk))) denom)) prevWBar,
                    jsadd (Math_log (jsdiv currMultiplicity denom)) currWeight])"

text \<open>\<^verbatim>\<open>for (var v = 0; v < lk.length; v++) totalChildren += lk[v].mnk\<close>\<close>

definition totalChildren :: "det list \<Rightarrow> jsnum" where
  "totalChildren lk = foldl (\<lambda>t d. jsadd t (mnk d)) (Fin 0) lk"

text \<open>
  The pair \<^verbatim>\<open>numChildrenAndWeight\<close> of the source, from \<^verbatim>\<open>logRatio\<close> on.
  \<open>u\<close> is the value of \<^verbatim>\<open>Math.random()\<close>, drawn only when \<^verbatim>\<open>logRatio < 0\<close>.
\<close>

definition numChildrenAndWeight ::
  "int \<Rightarrow> det list \<Rightarrow> jsnum \<Rightarrow> jsnum \<Rightarrow> real \<Rightarrow> jsnum \<times> jsnum" where
  "numChildrenAndWeight bufSize lk currWeight wb u =
     (let logRatio = jssub currWeight wb
      in if jslt logRatio (Fin 0)
         then (if jslt (Math_log (Fin u)) logRatio then (Fin 1, wb) else (Fin 0, NegInf))
         else
           (let minK = min bufSize (int (length lk));
                rnk = Math_exp logRatio;
                clampedRnk = (if jsle (totalChildren lk) (num minK)
                              then Math_ceil rnk else Math_floor rnk)
            in (clampedRnk, jssub currWeight (Math_log clampedRnk))))"

text \<open>
  \<^verbatim>\<open>aSMC.prototype.factor(s, cc, a, score)\<close> up to its final
  \<^verbatim>\<open>return this.control()\<close>. The address \<^verbatim>\<open>a\<close> is not used by the source.
  \<^verbatim>\<open>this.activeParticle\<close> is \<^verbatim>\<open>undefined\<close> until \<^verbatim>\<open>control\<close> has run, and
  an empty \<^verbatim>\<open>lk\<close> has no last entry: both reads throw.
\<close>

definition factor_body ::
  "('k, 's, 'v) asmc \<Rightarrow> 's \<Rightarrow> 'k \<Rightarrow> jsnum \<Rightarrow> real \<Rightarrow> error + ('k, 's, 'v) asmc" where
  "factor_body this s cc score u =
     (case activeParticle this of
        None \<Rightarrow> Inl PropertyOfUndefined
      | Some p \<Rightarrow>
          (let newFI = (case factorIndex p of None \<Rightarrow> 0 | Some fi \<Rightarrow> fi + 1);
               ap = p\<lparr>weight := jsadd (weight p) score, continuation := cc, store := s,
                      factorIndex := Some newFI\<rparr>
           in if weight ap = NegInf then Inr (this\<lparr>activeParticle := Some ap\<rparr>)
              else
                (case obsWeights this newFI of
                   None \<Rightarrow>
                     Inr (this\<lparr>obsWeights := (obsWeights this)
                                  (newFI \<mapsto> [\<lparr>wbar = weight ap, mnk = Fin 1\<rparr>]),
                               activeParticle := Some (ap\<lparr>numChildrenToSpawn := Fin 1,
                                                          finalWeight := weight ap\<rparr>)\<rparr>)
                 | Some lk \<Rightarrow>
                     if lk = [] then Inl PropertyOfUndefined
                     else
                       (let currMultiplicity = multiplicity ap;
                            currWeight = weight ap;
                            wb = new_wbar lk currMultiplicity currWeight;
                            ncw = numChildrenAndWeight (bufferSize this) lk currWeight wb u;
                            this1 = this\<lparr>obsWeights := (obsWeights this)
                                      (newFI \<mapsto> lk @ [\<lparr>wbar = wb, mnk = fst ncw\<rparr>])\<rparr>
                        in if jsgt (fst ncw) (Fin 0)
                           then
                             (let ap1 = (if int (length (buffer this1)) < bufferSize this1
                                         then ap\<lparr>numChildrenToSpawn := fst ncw,
                                                 weight := snd ncw\<rparr>
                                         else ap\<lparr>multiplicity := jsmul (multiplicity ap) (fst ncw),
                                                 numChildrenToSpawn := Fin 1,
                                                 weight := snd ncw\<rparr>);
                                  ap2 = ap1\<lparr>finalWeight :=
                                          jsadd (jsadd (Math_log (multiplicity ap1)) (weight ap1))
                                            score\<rparr>
                              in Inr (this1\<lparr>activeParticle := Some ap2,
                                            buffer := buffer this1 @ [ap2]\<rparr>))
                           else Inr (this1\<lparr>activeParticle := Some ap\<rparr>)))))"

text \<open>\<open>uc\<close> is the value of \<^verbatim>\<open>Math.random()\<close> in the final \<^verbatim>\<open>this.control()\<close>.\<close>

definition factor ::
  "('k, 's, 'v) asmc \<Rightarrow> 's \<Rightarrow> 'k \<Rightarrow> jsnum \<Rightarrow> real \<Rightarrow> real \<Rightarrow>
   error + ('k, 's, 'v) asmc \<times> ('k, 's) outcome" where
  "factor this s cc score u uc =
     (case factor_body this s cc score u of
        Inl e \<Rightarrow> Inl e
      | Inr this1 \<Rightarrow> control this1 None uc)"

text \<open>
  \<^verbatim>\<open>aSMC.prototype.exit(s, retval)\<close>. The histogram of return values is built by
  \<^verbatim>\<open>erp.makeMarginalERP\<close>, which is outside these sources; of the distribution the
  model keeps \<^verbatim>\<open>normalizationConstant\<close>.
\<close>

definition exit_hook ::
  "('k, 's, 'v) asmc \<Rightarrow> 's \<Rightarrow> 'v \<Rightarrow> real \<Rightarrow> error + ('k, 's, 'v) asmc \<times> ('k, 's) outcome" where
  "exit_hook this s rv uc =
     (case activeParticle this of
        None \<Rightarrow> Inl PropertyOfUndefined
      | Some p \<Rightarrow>
          (let ap = p\<lparr>retval := Some rv, completed := True, weight := finalWeight p\<rparr>;
               this1 = this\<lparr>activeParticle := Some ap,
                            exitedParticles := exitedParticles this @ [ap]\<rparr>
           in if int (length (exitedParticles this1)) < numParticles this1
              then control this1 None uc
              else
                (let nc = logsumexp (map weight (exitedParticles this1))
                 in Inr (this1, Return (oldStore this1)
                                 (jssub nc (Math_log (num (numParticles this1))))))))"

text \<open>
  The constructor \<^verbatim>\<open>aSMC(s, k, a, wpplFn, numParticles, bufferSize)\<close>. The closure
  \<^verbatim>\<open>this.exitK\<close> over \<^verbatim>\<open>wpplFn\<close> is the parameter \<open>exK\<close>;
  \<^verbatim>\<open>Math.floor(bufferSize * 3 / 5)\<close> is integer division, which rounds down, and the
  seeding loop runs no time when that number is not positive.
\<close>

definition aSMC ::
  "'s \<Rightarrow> 'k \<Rightarrow> int \<Rightarrow> int \<Rightarrow> real \<Rightarrow> error + ('k, 's, 'v) asmc \<times> ('k, 's) outcome" where
  "aSMC s exK numP bufSize u =
     (let initNumP = (bufSize * 3) div 5;
          this = \<lparr>buffer = replicate (nat initNumP) (initParticle s exK),
                  bufferSize = bufSize,
                  numParticles = 0,
                  obsWeights = Map.empty,
                  exitedParticles = [],
                  exitK = exK,
                  this_store = s,
                  oldStore = s,
                  activeParticle = None\<rparr>
      in control this (Some numP) u)"

section \<open>Runs\<close>

text \<open>
  Between two calls of \<^verbatim>\<open>control\<close> the model code of the active particle runs. To the
  scheduler it is a call of \<^verbatim>\<open>factor\<close> or of \<^verbatim>\<open>exit\<close> with arguments of the
  model's choice. An event is such a call together with the values \<^verbatim>\<open>Math.random()\<close>
  takes during it; a run applies events until inference returns or an error is thrown.
\<close>

datatype ('k, 's, 'v) event = Factor 's 'k jsnum real real | Exit 's 'v real

fun step ::
  "('k, 's, 'v) asmc \<Rightarrow> ('k, 's, 'v) event \<Rightarrow> error + ('k, 's, 'v) asmc \<times> ('k, 's) outcome" where
  "step this (Factor s cc score u uc) = factor this s cc score u uc"
| "step this (Exit s rv uc) = exit_hook this s rv uc"

fun run ::
  "('k, 's, 'v) asmc \<times> ('k, 's) outcome \<Rightarrow> ('k, 's, 'v) event list \<Rightarrow>
   error + ('k, 's, 'v) asmc \<times> ('k, 's) outcome" where
  "run (this, Return s nc) evs = Inr (this, Return s nc)"
| "run (this, Resume k s) [] = Inr (this, Resume k s)"
| "run (this, Resume k s) (e # evs) =
     (case step this e of Inl err \<Rightarrow> Inl err | Inr r \<Rightarrow> run r evs)"

text \<open>A whole run: the constructor, then the events.\<close>

definition aSMC_run ::
  "'s \<Rightarrow> 'k \<Rightarrow> int \<Rightarrow> int \<Rightarrow> real \<Rightarrow> ('k, 's, 'v) event list \<Rightarrow>
   error + ('k, 's, 'v) asmc \<times> ('k, 's) outcome" where
  "aSMC_run s exK numP bufSize u evs =
     (case aSMC s exK numP bufSize u of Inl err \<Rightarrow> Inl err | Inr r \<Rightarrow> run r evs)"

section \<open>Auxiliary definitions for the properties\<close>

text \<open>
  A child count or a multiplicity that is in order: a whole number that is at least one,
  or \<^verbatim>\<open>Infinity\<close> (which \<^verbatim>\<open>Math.ceil(Math.exp(logRatio))\<close> is when
  \<^verbatim>\<open>logRatio\<close> is).
\<close>

definition count_ok :: "jsnum \<Rightarrow> bool" where
  "count_ok x =
     (case x of PosInf \<Rightarrow> True | Fin r \<Rightarrow> 1 \<le> r \<and> r = of_int \<lfloor>r\<rfloor> | _ \<Rightarrow> False)"

text \<open>
  What holds of a particle in the buffer: its multiplicity is in order, and so is its
  number of children to spawn, unless it is a particle that has met no \<^verbatim>\<open>factor\<close>
  yet and has the zero of \<^verbatim>\<open>initParticle\<close>.
\<close>

definition particle_ok :: "('k, 's, 'v) particle \<Rightarrow> bool" where
  "particle_ok p =
     (count_ok (multiplicity p) \<and>
      (count_ok (numChildrenToSpawn p) \<or>
       numChildrenToSpawn p = Fin 0 \<and> factorIndex p = None))"

definition state_ok :: "('k, 's, 'v) asmc \<Rightarrow> bool" where
  "state_ok this =
     (list_all particle_ok (buffer this) \<and>
      (case activeParticle this of None \<Rightarrow> True | Some p \<Rightarrow> count_ok (multiplicity p)))"

text \<open>
  Two states of a run with \<^verbatim>\<open>bufferSize = 1\<close>, in which nothing is seeded: the state
  in which the constructor leaves the scheduler when it launches a fresh particle, and
  the state after that particle has called \<^verbatim>\<open>factor\<close> with score \<open>0\<close> and
  another fresh particle has been launched.
\<close>

definition st_fresh :: "(nat, nat, nat) asmc" where
  "st_fresh =
     \<lparr>buffer = [], bufferSize = 1, numParticles = 1, obsWeights = Map.empty,
      exitedParticles = [], exitK = 0, this_store = 0, oldStore = 0,
      activeParticle = Some (initParticle 0 0)\<rparr>"

definition st_second :: "(nat, nat, nat) asmc" where
  "st_second = st_fresh\<lparr>obsWeights := [0 \<mapsto> [\<lparr>wbar = Fin 0, mnk = Fin 1\<rparr>]]\<rparr>"

text \<open>
  The particle that the second and the third call of \<^verbatim>\<open>factor\<close> with score \<open>0\<close>
  push, and the states after these calls, each followed by the launch of a fresh particle.
\<close>

definition pushed :: "(nat, nat, nat) particle" where
  "pushed = (initParticle 0 2)\<lparr>factorIndex := Some 0, numChildrenToSpawn := Fin 1\<rparr>"

definition st_third :: "(nat, nat, nat) asmc" where
  "st_third =
     st_fresh\<lparr>obsWeights := [0 \<mapsto> [\<lparr>wbar = Fin 0, mnk = Fin 1\<rparr>, \<lparr>wbar = Fin 0, mnk = Fin 1\<rparr>]],
              buffer := [pushed]\<rparr>"

definition st_over :: "(nat, nat, nat) asmc" where
  "st_over =
     st_fresh\<lparr>obsWeights := [0 \<mapsto> [\<lparr>wbar = Fin 0, mnk = Fin 1\<rparr>, \<lparr>wbar = Fin 0, mnk = Fin 1\<rparr>,
                                   \<lparr>wbar = Fin 0, mnk = Fin 1\<rparr>]],
              buffer := [pushed, pushed]\<rparr>"

text \<open>
  The state of \<open>st_second\<close> with a ledger entry that has awarded two children, and the
  state in which the constructor leaves the scheduler for \<^verbatim>\<open>bufferSize = 5\<close> when
  it launches a fresh particle: three particles are seeded.
\<close>

definition st_two :: "(nat, nat, nat) asmc" where
  "st_two = st_fresh\<lparr>obsWeights := [0 \<mapsto> [\<lparr>wbar = Fin 0, mnk = Fin 2\<rparr>]]\<rparr>"

definition st_seeded :: "(nat, nat, nat) asmc" where
  "st_seeded =
     \<lparr>buffer = [initParticle 0 0, initParticle 0 0, initParticle 0 0], bufferSize = 5,
      numParticles = 10, obsWeights = Map.empty, exitedParticles = [], exitK = 0,
      this_store = 0, oldStore = 0, activeParticle = Some (initParticle 0 0)\<rparr>"









section \<open>Properties of \<^verbatim>\<open>logsumexp\<close>\<close>

lemma Math_max_all_NegInf: "\<forall>x\<in>set a. x = NegInf \<Longrightarrow> foldl jsmax NegInf a = NegInf"
  by (induction a) auto

lemma sum_all_NegInf:
  "\<forall>x\<in>set a. x = NegInf \<Longrightarrow>
   foldl (\<lambda>sum ai. jsadd sum (if ai = NegInf then Fin 0 else Math_exp (jssub ai m)))
     (Fin 0) a = Fin 0"
  by (induction a) auto

lemma logsumexp_single: "x \<noteq> PosInf \<Longrightarrow> logsumexp [x] = x"
  by (cases x) (simp_all add: logsumexp_def Math_max_def jssub_def)

text \<open>
  Claim C10 as the code has it. On a non-empty array whose entries are all
  \<^verbatim>\<open>-Infinity\<close>, \<^verbatim>\<open>logsumexp\<close> returns \<^verbatim>\<open>-Infinity\<close>, not NaN. On a
  one-element array \<^verbatim>\<open>[x]\<close> it returns \<open>x\<close>, provided that \<open>x\<close> is not
  \<^verbatim>\<open>+Infinity\<close>.
\<close>

theorem logsumexp_laws:
  "(a \<noteq> [] \<and> (\<forall>x\<in>set a. x = NegInf) \<longrightarrow> logsumexp a = NegInf) \<and>
   (x \<noteq> PosInf \<longrightarrow> logsumexp [x] = x)"
proof (intro conjI impI)
  assume "a \<noteq> [] \<and> (\<forall>x\<in>set a. x = NegInf)"
  then show "logsumexp a = NegInf"
    by (simp add: logsumexp_def Math_max_def Math_max_all_NegInf sum_all_NegInf)
next
  assume "x \<noteq> PosInf"
  then show "logsumexp [x] = x" by (rule logsumexp_single)
qed

theorem logsumexp_laws_witness:
  "logsumexp [NegInf, NegInf] = NegInf \<and> logsumexp [Fin 2] = Fin 2"
  using logsumexp_laws [of "[NegInf, NegInf]" "Fin 2"] by simp

text \<open>
  Claim C10 as stated fails at \<^verbatim>\<open>[Infinity]\<close>: the maximum is \<^verbatim>\<open>Infinity\<close>,
  \<^verbatim>\<open>Infinity - Infinity\<close> is NaN, and so is the result.
\<close>

theorem logsumexp_PosInf_counterexample:
  "logsumexp [PosInf] = NaN \<and> logsumexp [PosInf] \<noteq> PosInf"
  by (simp add: logsumexp_def Math_max_def jssub_def)

section \<open>The scheduler step\<close>

text \<open>What \<^verbatim>\<open>control\<close> leaves alone: the ledger, the completed particles, the size of the buffer.\<close>

lemma control_frame:
  "control this numP u = Inr (this', out) \<Longrightarrow>
   obsWeights this' = obsWeights this \<and> exitedParticles this' = exitedParticles this \<and>
   length (buffer this') = length (buffer this) \<and> bufferSize this' = bufferSize this"
  by (auto simp: control_def launch_def Let_def split: if_splits)

text \<open>A draw in \<open>[0, 1)\<close> gives an index between \<open>0\<close> and the length of the buffer.\<close>

lemma control_index_range:
  assumes "0 \<le> (u::real)" and "u < 1"
  shows "0 \<le> \<lfloor>(of_int (int n) + 1) * u\<rfloor> \<and> \<lfloor>(of_int (int n) + 1) * u\<rfloor> \<le> int n"
proof -
  have pos: "(0::real) < of_int (int n) + 1" by (simp add: add_nonneg_pos)
  then have lo: "0 \<le> (of_int (int n) + 1) * u" using assms(1) by simp
  have "(of_int (int n) + 1) * u < (of_int (int n) + 1) * 1"
    using assms(2) pos by (rule mult_strict_left_mono)
  then have "(of_int (int n) + 1) * u < of_int (int n + 1)" by simp
  then have "\<lfloor>(of_int (int n) + 1) * u\<rfloor> < int n + 1" by (simp only: floor_less_iff)
  then have hi: "\<lfloor>(of_int (int n) + 1) * u\<rfloor> \<le> int n" by linarith
  from lo have "0 \<le> \<lfloor>(of_int (int n) + 1) * u\<rfloor>" by (simp only: zero_le_floor)
  with hi show ?thesis by blast
qed

text \<open>The two branches of \<^verbatim>\<open>control\<close> that launch a particle.\<close>

lemma control_fresh:
  "\<lfloor>(of_int (int (length (buffer this))) + 1) * u\<rfloor> = int (length (buffer this)) \<Longrightarrow>
   control this None u =
     Inr (this\<lparr>activeParticle := Some (initParticle (this_store this) (exitK this))\<rparr>,
          Resume (exitK this) (this_store this))"
  by (simp add: control_def launch_def initParticle_def)

lemma control_clone:
  assumes "i < length (buffer this)"
    and "\<lfloor>(of_int (int (length (buffer this))) + 1) * u\<rfloor> = int i"
    and "jsgt (numChildrenToSpawn (buffer this ! i)) (Fin 1)"
  shows "control this None u =
     Inr (this\<lparr>buffer := (buffer this)[i := (buffer this ! i)\<lparr>numChildrenToSpawn :=
                   jssub (numChildrenToSpawn (buffer this ! i)) (Fin 1)\<rparr>],
               activeParticle := Some (copyOneParticle (buffer this ! i))\<rparr>,
          Resume (continuation (buffer this ! i)) (store (buffer this ! i)))"
  using assms by (simp add: control_def launch_def Let_def copyOneParticle_def)

lemma control_picks:
  assumes "i < length (buffer this)"
    and "\<lfloor>(of_int (int (length (buffer this))) + 1) * uc\<rfloor> = int i"
    and "control this numP uc = Inr (this1, out)"
  shows "activeParticle this1 = Some (copyOneParticle (buffer this ! i))"
  using assms by (auto simp: control_def launch_def Let_def split: if_splits)

text \<open>
  The last branch: the picked particle has at most one child to spawn, and the call of
  \<^verbatim>\<open>util.deleteIndex\<close> throws.
\<close>

lemma deleteIndex_not_exported: "''deleteIndex'' \<notin> set util_exports"
  by (simp add: util_exports_def)

lemma control_remove_throws:
  assumes "i < length (buffer this)"
    and "\<lfloor>(of_int (int (length (buffer this))) + 1) * u\<rfloor> = int i"
    and "\<not> jsgt (numChildrenToSpawn (buffer this ! i)) (Fin 1)"
  shows "control this numP u = Inl (NotAFunction ''util.deleteIndex'')"
  using assms by (simp add: control_def Let_def)

text \<open>
  Claim C5 at a concrete step. With \<^verbatim>\<open>bufferSize = 5\<close> the constructor seeds three
  particles, each with \<^verbatim>\<open>numChildrenToSpawn = 0\<close>. When \<^verbatim>\<open>Math.random()\<close> is
  \<open>1/10\<close>, the first step picks index \<open>0\<close>; the particle there is to be removed from the
  buffer and made active; instead the call of \<^verbatim>\<open>util.deleteIndex\<close> throws.
\<close>

theorem control_deleteIndex_throws:
  "(aSMC 0 0 10 5 (1 / 10) :: error + (nat, nat, nat) asmc \<times> (nat, nat) outcome) =
     Inl (NotAFunction ''util.deleteIndex'')"
  by (simp add: aSMC_def control_def launch_def initParticle_def jsgt_def)

section \<open>\<^verbatim>\<open>factor\<close>: a weight of \<^verbatim>\<open>-Infinity\<close>\<close>

text \<open>
  Claim C8. When the weight of the active particle is \<^verbatim>\<open>-Infinity\<close> after the score
  has been added, \<^verbatim>\<open>factor\<close> records the weight, the continuation, the store and the
  new observation index in the active particle and calls \<^verbatim>\<open>control\<close> at once: the
  ledger and the buffer are those of before, so the particle is not in the buffer.
\<close>

theorem factor_NegInf:
  "activeParticle this = Some p \<Longrightarrow> jsadd (weight p) score = NegInf \<Longrightarrow>
   (\<exists>this1. factor_body this s cc score u = Inr this1 \<and>
      obsWeights this1 = obsWeights this \<and> buffer this1 = buffer this \<and>
      activeParticle this1 =
        Some (p\<lparr>weight := NegInf, continuation := cc, store := s,
                factorIndex := Some (case factorIndex p of None \<Rightarrow> 0 | Some fi \<Rightarrow> fi + 1)\<rparr>) \<and>
      factor this s cc score u uc = control this1 None uc)"
  by (simp add: factor_def factor_body_def Let_def)

theorem factor_NegInf_witness:
  "\<exists>this1. factor_body st_fresh 0 2 NegInf 0 = Inr this1 \<and>
      obsWeights this1 = obsWeights st_fresh \<and> buffer this1 = buffer st_fresh \<and>
      activeParticle this1 =
        Some ((initParticle 0 0)\<lparr>weight := NegInf, continuation := 2, store := 0,
                factorIndex := Some 0\<rparr>) \<and>
      factor st_fresh 0 2 NegInf 0 0 = control this1 None 0"
  using factor_NegInf [of st_fresh "initParticle 0 0" NegInf 0 2 0 0]
  by (simp add: st_fresh_def initParticle_def)

section \<open>\<^verbatim>\<open>factor\<close>: the first arrival at an observation\<close>

text \<open>
  The first branch of \<^verbatim>\<open>factor\<close>: the ledger of the observation is undefined. The
  entry is recorded and the active particle gets one child to spawn and its weight as
  final weight, but nothing is pushed: the buffer is the one of before.
\<close>

lemma factor_first_arrival:
  assumes "activeParticle this = Some p"
    and "n = (case factorIndex p of None \<Rightarrow> 0 | Some fi \<Rightarrow> fi + 1)"
    and "obsWeights this n = None"
    and "W = jsadd (weight p) score" and "W \<noteq> NegInf"
  shows "factor_body this s cc score u =
     Inr (this\<lparr>obsWeights := (obsWeights this)(n \<mapsto> [\<lparr>wbar = W, mnk = Fin 1\<rparr>]),
               activeParticle := Some (p\<lparr>weight := W, continuation := cc, store := s,
                 factorIndex := Some n, numChildrenToSpawn := Fin 1, finalWeight := W\<rparr>)\<rparr>)"
  using assms by (simp add: factor_body_def Let_def)

text \<open>
  Claim C1 at a concrete call. With \<^verbatim>\<open>bufferSize = 1\<close> nothing is seeded and the
  constructor launches a fresh particle. The model calls \<^verbatim>\<open>factor\<close> with score
  \<open>0\<close>: the entry \<open>{wbar = 0, mnk = 1}\<close> is recorded, the particle has one child to
  spawn and its weight is unchanged, but the buffer is still empty when \<^verbatim>\<open>control\<close>
  runs, and the next step launches another fresh particle: the first arrival is lost.
\<close>

theorem first_arrival_not_rebuffered:
  "aSMC 0 0 1 1 0 = Inr (st_fresh, Resume 0 0) \<and>
   factor_body st_fresh 0 2 (Fin 0) 0 =
     Inr (st_fresh\<lparr>obsWeights := [0 \<mapsto> [\<lparr>wbar = Fin 0, mnk = Fin 1\<rparr>]],
           activeParticle := Some ((initParticle 0 2)\<lparr>numChildrenToSpawn := Fin 1,
                                                      factorIndex := Some 0\<rparr>)\<rparr>) \<and>
   buffer (st_fresh\<lparr>obsWeights := [0 \<mapsto> [\<lparr>wbar = Fin 0, mnk = Fin 1\<rparr>]],
           activeParticle := Some ((initParticle 0 2)\<lparr>numChildrenToSpawn := Fin 1,
                                                      factorIndex := Some 0\<rparr>)\<rparr>) = [] \<and>
   factor st_fresh 0 2 (Fin 0) 0 0 = Inr (st_second, Resume 0 0) \<and>
   buffer st_second = [] \<and> activeParticle st_second = Some (initParticle 0 0)"
  by (simp add: aSMC_def factor_def factor_body_def control_def launch_def st_fresh_def
      st_second_def initParticle_def)

section \<open>\<^verbatim>\<open>factor\<close>: later arrivals\<close>

lemma jsge_zero_cases: "jsge x (Fin 0) \<longleftrightarrow> x = PosInf \<or> (\<exists>r. x = Fin r \<and> 0 \<le> r)"
  by (cases x) (auto simp: jsge_def jsle_def)

lemma jsge_not_jslt: "jsge x (Fin 0) \<Longrightarrow> \<not> jslt x (Fin 0)"
  by (auto simp: jsge_zero_cases)

lemma floor_exp_ge_one: "0 \<le> r \<Longrightarrow> 1 \<le> \<lfloor>exp (r::real)\<rfloor>"
  by (simp add: le_floor_iff)

lemma ceil_exp_ge_one: "0 \<le> r \<Longrightarrow> 1 \<le> \<lceil>exp (r::real)\<rceil>"
  by (smt (verit) floor_exp_ge_one floor_le_ceiling)

lemma clamped_pos:
  assumes "jsge x (Fin 0)"
  shows "jsgt (Math_ceil (Math_exp x)) (Fin 0)" and "jsgt (Math_floor (Math_exp x)) (Fin 0)"
  using assms floor_exp_ge_one ceil_exp_ge_one
  by (auto simp: jsge_zero_cases jsgt_def)

text \<open>The two reference weights that the concrete runs below compute.\<close>

lemma ln_half: "ln (1 / 2 :: real) = - ln 2"
  by (simp add: ln_div)

lemma new_wbar_second: "new_wbar [\<lparr>wbar = Fin 0, mnk = Fin 1\<rparr>] (Fin 1) (Fin 0) = Fin 0"
  by (simp add: new_wbar_def num_def logsumexp_def Math_max_def jssub_def ln_half)

lemma new_wbar_third:
  "new_wbar [\<lparr>wbar = Fin 0, mnk = Fin 1\<rparr>, \<lparr>wbar = Fin 0, mnk = Fin 1\<rparr>] (Fin 1) (Fin 0) = Fin 0"
proof -
  have h1: "exp (ln (1 / 3 :: real) - ln (2 / 3)) = 1 / 2"
    by (simp add: exp_diff)
  have h2: "ln (2 / 3 :: real) + ln (3 / 2) = 0"
    by (simp add: ln_div)
  have "ln (2 / 3 :: real) + ln (1 + exp (ln (1 / 3) - ln (2 / 3))) = 0"
    unfolding h1 using h2 by simp
  moreover have "0 < 1 + exp (ln (1 / 3 :: real) - ln (2 / 3))"
    by (simp add: add_pos_pos)
  then have "1 + exp (ln (1 / 3 :: real) - ln (2 / 3)) \<noteq> 0"
    and "\<not> 1 + exp (ln (1 / 3 :: real) - ln (2 / 3)) < 0"
    by linarith+
  ultimately show ?thesis
    by (simp add: new_wbar_def num_def logsumexp_def Math_max_def jssub_def)
qed

lemma ncw_second:
  "numChildrenAndWeight 1 [\<lparr>wbar = Fin 0, mnk = Fin 1\<rparr>] (Fin 0) (Fin 0) u = (Fin 1, Fin 0)"
  by (simp add: numChildrenAndWeight_def jssub_def totalChildren_def num_def jsle_def)

lemma ncw_third:
  "numChildrenAndWeight 1 [\<lparr>wbar = Fin 0, mnk = Fin 1\<rparr>, \<lparr>wbar = Fin 0, mnk = Fin 1\<rparr>]
     (Fin 0) (Fin 0) u = (Fin 1, Fin 0)"
  by (simp add: numChildrenAndWeight_def jssub_def totalChildren_def num_def jsle_def)

text \<open>
  Claim C3. At the \<open>k\<close>-th arrival at observation \<open>n\<close>, \<open>k \<ge> 2\<close>, the ledger of
  \<open>n\<close> has \<open>k - 1\<close> entries. With \<open>W\<close> the weight of the particle after the score
  has been added, not \<^verbatim>\<open>-Infinity\<close>, and \<open>m\<close> its multiplicity, \<^verbatim>\<open>factor\<close>
  appends one entry, whose \<open>wbar\<close> is
  \<open>logsumexp [log ((k - 1) / denom) + prevWbar, log (m / denom) + W]\<close>, where
  \<open>denom = (k - 1) + m\<close> and \<open>prevWbar\<close> is the \<open>wbar\<close> of entry \<open>k - 1\<close> (index
  \<open>k - 2\<close>). The final \<^verbatim>\<open>control\<close> leaves the ledger as it is.
\<close>

theorem factor_wbar:
  assumes "activeParticle this = Some p"
    and "n = (case factorIndex p of None \<Rightarrow> 0 | Some fi \<Rightarrow> fi + 1)"
    and "obsWeights this n = Some lk" and "lk \<noteq> []"
    and "W = jsadd (weight p) score" and "W \<noteq> NegInf"
    and "k = length lk + 1" and "m = multiplicity p"
    and "denom = jsadd (num (int k - 1)) m"
    and "prevWbar = wbar (lk ! (k - 2))"
  shows "\<exists>this1 c. factor_body this s cc score u = Inr this1 \<and>
           obsWeights this1 n =
             Some (lk @ [\<lparr>wbar = logsumexp [jsadd (Math_log (jsdiv (num (int k - 1)) denom)) prevWbar,
                                            jsadd (Math_log (jsdiv m denom)) W],
                          mnk = c\<rparr>]) \<and>
           (\<forall>this2 out. factor this s cc score u uc = Inr (this2, out) \<longrightarrow>
              obsWeights this2 = obsWeights this1)"
proof -
  have "lk ! (k - 2) = last lk" using assms(4,7) by (simp add: last_conv_nth)
  then have "\<exists>this1 c. factor_body this s cc score u = Inr this1 \<and>
           obsWeights this1 n =
             Some (lk @ [\<lparr>wbar = logsumexp [jsadd (Math_log (jsdiv (num (int k - 1)) denom)) prevWbar,
                                            jsadd (Math_log (jsdiv m denom)) W],
                          mnk = c\<rparr>])"
    using assms by (simp add: factor_body_def Let_def new_wbar_def)
  then obtain this1 c where b: "factor_body this s cc score u = Inr this1"
    and o: "obsWeights this1 n =
             Some (lk @ [\<lparr>wbar = logsumexp [jsadd (Math_log (jsdiv (num (int k - 1)) denom)) prevWbar,
                                            jsadd (Math_log (jsdiv m denom)) W],
                          mnk = c\<rparr>])"
    by blast
  have "\<forall>this2 out. factor this s cc score u uc = Inr (this2, out) \<longrightarrow>
          obsWeights this2 = obsWeights this1"
    using b control_frame [of this1 None uc] by (simp add: factor_def)
  with b o show ?thesis by blast
qed

theorem factor_wbar_witness:
  "\<exists>this1 c. factor_body st_second 0 2 (Fin 0) 0 = Inr this1 \<and>
     obsWeights this1 0 =
       Some ([\<lparr>wbar = Fin 0, mnk = Fin 1\<rparr>] @
             [\<lparr>wbar = logsumexp [jsadd (Math_log (jsdiv (num (int 2 - 1)) (Fin 2))) (Fin 0),
                                 jsadd (Math_log (jsdiv (Fin 1) (Fin 2))) (Fin 0)],
               mnk = c\<rparr>]) \<and>
     (\<forall>this2 out. factor st_second 0 2 (Fin 0) 0 0 = Inr (this2, out) \<longrightarrow>
        obsWeights this2 = obsWeights this1)"
  by (rule factor_wbar [where p = "initParticle 0 0"])
    (simp_all add: st_second_def st_fresh_def initParticle_def num_def)

text \<open>The sum of \<open>mnk\<close> over a ledger, and the numbers of the concrete calls below.\<close>


lemma totalChildren_sum: "totalChildren lk = foldl jsadd (Fin 0) (map mnk lk)"
  by (simp add: totalChildren_def foldl_map)

lemma foldl_jsadd_Fin: "foldl jsadd (Fin a) (map Fin rs) = Fin (a + sum_list rs)"
  by (induction rs arbitrary: a) (simp_all add: add.assoc)

lemma sum_mnk_finite:
  "map mnk lk = map Fin rs \<Longrightarrow> foldl jsadd (Fin 0) (map mnk lk) = Fin (sum_list rs)"
  by (simp add: foldl_jsadd_Fin)

lemma ln3_pos: "0 < ln (3::real)" by simp
lemma ln2_lt_ln3: "ln (2::real) < ln 3" by simp

lemma logsumexp_pair_le:
  assumes "a \<le> b"
  shows "logsumexp [Fin a, Fin b] = Fin (b + ln (exp (a - b) + 1))"
proof -
  have pos: "0 < exp (a - b) + 1" by (simp add: add_pos_pos)
  then have "exp (a - b) + 1 \<noteq> 0" "\<not> exp (a - b) + 1 < 0" by linarith+
  then show ?thesis using assms
    by (simp add: logsumexp_def Math_max_def jssub_def)
qed

lemma logsumexp_pair_ge:
  assumes "b < a"
  shows "logsumexp [Fin a, Fin b] = Fin (a + ln (1 + exp (b - a)))"
proof -
  have pos: "0 < 1 + exp (b - a)" by (simp add: add_pos_pos)
  then have "1 + exp (b - a) \<noteq> 0" "\<not> 1 + exp (b - a) < 0" by linarith+
  then show ?thesis using assms
    by (simp add: logsumexp_def Math_max_def jssub_def)
qed

lemma new_wbar_up: "new_wbar [\<lparr>wbar = Fin 0, mnk = c\<rparr>] (Fin 1) (Fin (ln 3)) = Fin (ln 2)"
proof -
  have e: "exp (ln (1 / 2 :: real) - (ln (1 / 2) + ln 3)) = 1 / 3"
    by (simp add: exp_minus)
  have a: "ln (1 / 2 * 3 :: real) = ln (1 / 2) + ln 3" by (rule ln_mult_pos) simp_all
  have b: "ln (1 / 2 * 3 * (1 / 3 + 1) :: real) = ln (1 / 2 * 3) + ln (1 / 3 + 1)"
    by (rule ln_mult_pos) simp_all
  have v: "(1 / 2 * 3 * (1 / 3 + 1) :: real) = 2" by simp
  have s: "ln (1 / 2 :: real) + ln 3 + ln (1 / 3 + 1) = ln 2"
    using b by (simp only: a v)
  have "new_wbar [\<lparr>wbar = Fin 0, mnk = c\<rparr>] (Fin 1) (Fin (ln 3)) =
          logsumexp [Fin (ln (1 / 2)), Fin (ln (1 / 2) + ln 3)]"
    by (simp add: new_wbar_def num_def)
  also have "\<dots> = Fin (ln (1 / 2) + ln 3 + ln (exp (ln (1 / 2) - (ln (1 / 2) + ln 3)) + 1))"
    by (rule logsumexp_pair_le) simp
  also have "\<dots> = Fin (ln 2)" unfolding e using s by simp
  finally show ?thesis .
qed

lemma new_wbar_down:
  "new_wbar [\<lparr>wbar = Fin 0, mnk = c\<rparr>] (Fin 1) (Fin (- ln 3)) = Fin (ln 2 - ln 3)"
proof -
  have e: "exp (ln (1 / 2 :: real) + - ln 3 - ln (1 / 2)) = 1 / 3"
    by (simp add: exp_minus)
  have a: "ln (1 / 2 * (1 + 1 / 3) :: real) = ln (1 / 2) + ln (1 + 1 / 3)"
    by (rule ln_mult_pos) simp_all
  have v: "(1 / 2 * (1 + 1 / 3) :: real) = 2 / 3" by simp
  have d: "ln (2 / 3 :: real) = ln 2 - ln 3" by (rule ln_divide_pos) simp_all
  have s: "ln (1 / 2 :: real) + ln (1 + 1 / 3) = ln 2 - ln 3"
    using a by (simp only: v d)
  have "new_wbar [\<lparr>wbar = Fin 0, mnk = c\<rparr>] (Fin 1) (Fin (- ln 3)) =
          logsumexp [Fin (ln (1 / 2)), Fin (ln (1 / 2) + - ln 3)]"
    by (simp add: new_wbar_def num_def)
  also have "\<dots> = Fin (ln (1 / 2) + ln (1 + exp (ln (1 / 2) + - ln 3 - ln (1 / 2))))"
    by (rule logsumexp_pair_ge) simp
  also have "\<dots> = Fin (ln 2 - ln 3)" unfolding e using s by simp
  finally show ?thesis .
qed

lemma exp_ratio: "exp (ln 3 - ln (2::real)) = 3 / 2"
  by (simp add: exp_diff)

lemma ceil_ratio: "\<lceil>3 / 2 :: real\<rceil> = 2" and floor_ratio: "\<lfloor>3 / 2 :: real\<rfloor> = 1"
  by (simp_all add: ceiling_eq_iff floor_eq_iff)

lemma ln_quarter: "ln (1 / 4 :: real) < - ln 2"
proof -
  have "ln (1 / 4 :: real) < ln (1 / 2)" by simp
  then show ?thesis unfolding ln_half .
qed

lemma ln_three_quarters: "\<not> ln (3 / 4 :: real) < - ln 2"
proof -
  have "\<not> ln (3 / 4 :: real) < ln (1 / 2)" by simp
  then show ?thesis unfolding ln_half .
qed


text \<open>
  Claim C4. At the \<open>k\<close>-th arrival at observation \<open>n\<close>, \<open>k \<ge> 2\<close>, with \<open>W\<close> the
  weight after the score has been added, not \<^verbatim>\<open>-Infinity\<close>, \<open>wb\<close> the reference
  weight just computed and \<open>logRatio = W - wb\<close>, the entry appended to the ledger of \<open>n\<close>
  is \<open>{wbar = wb, mnk = c}\<close>, where:
  \<^item> if \<open>logRatio < 0\<close> and \<open>log u < logRatio\<close> for the draw \<open>u\<close>, then \<open>c = 1\<close> and
    the particle is pushed onto the buffer with weight \<open>wb\<close> and one child to spawn;
  \<^item> if \<open>logRatio < 0\<close> and not \<open>log u < logRatio\<close>, then \<open>c = 0\<close> and the buffer is
    the one of before: the particle is dropped;
  \<^item> if \<open>logRatio \<ge> 0\<close>, then \<open>c\<close> is the ceiling of \<open>exp logRatio\<close> when the sum of
    \<open>mnk\<close> over the ledger (added up from \<open>0\<close>, entry after entry) is at most
    \<open>min bufferSize (k - 1)\<close>, and its floor otherwise; the particle is pushed with
    weight \<open>W - log c\<close>, and it has \<open>c\<close> children to spawn when the buffer has room,
    or one child and its multiplicity multiplied by \<open>c\<close> when the buffer is full.
\<close>

theorem factor_resample:
  assumes "activeParticle this = Some p"
    and "n = (case factorIndex p of None \<Rightarrow> 0 | Some fi \<Rightarrow> fi + 1)"
    and "obsWeights this n = Some lk" and "lk \<noteq> []"
    and "W = jsadd (weight p) score" and "W \<noteq> NegInf"
    and "wb = new_wbar lk (multiplicity p) W"
    and "logRatio = jssub W wb"
  shows "\<exists>this1 c. factor_body this s cc score u = Inr this1 \<and>
     obsWeights this1 n = Some (lk @ [\<lparr>wbar = wb, mnk = c\<rparr>]) \<and>
     (jslt logRatio (Fin 0) \<longrightarrow>
        (if jslt (Math_log (Fin u)) logRatio
         then c = Fin 1 \<and>
              (\<exists>q. buffer this1 = buffer this @ [q] \<and> weight q = wb \<and>
                   numChildrenToSpawn q = Fin 1)
         else c = Fin 0 \<and> buffer this1 = buffer this)) \<and>
     (jsge logRatio (Fin 0) \<longrightarrow>
        c = (if jsle (foldl jsadd (Fin 0) (map mnk lk))
                  (num (min (bufferSize this) (int (length lk))))
             then Math_ceil (Math_exp logRatio) else Math_floor (Math_exp logRatio)) \<and>
        (\<exists>q. buffer this1 = buffer this @ [q] \<and> weight q = jssub W (Math_log c) \<and>
             (if int (length (buffer this)) < bufferSize this
              then numChildrenToSpawn q = c \<and> multiplicity q = multiplicity p
              else numChildrenToSpawn q = Fin 1 \<and>
                   multiplicity q = jsmul (multiplicity p) c)))"
proof (cases "jslt logRatio (Fin 0)")
  case True
  then have "\<not> jsge logRatio (Fin 0)" using jsge_not_jslt by blast
  with True assms show ?thesis
    by (simp add: factor_body_def Let_def numChildrenAndWeight_def jsgt_def)
next
  case False
  show ?thesis
  proof (cases "jsge logRatio (Fin 0)")
    case True
    with False assms clamped_pos[OF True] show ?thesis
      by (simp add: factor_body_def Let_def numChildrenAndWeight_def totalChildren_sum)
  next
    case nge: False
    with False assms show ?thesis
      by (simp add: factor_body_def Let_def numChildrenAndWeight_def)
  qed
qed

text \<open>
  Four calls at a second arrival, each with reference weight \<open>0\<close> before it: score
  \<open>log 3\<close> after one child awarded (ceiling, two children), score \<open>log 3\<close> after two
  children awarded (floor, one child), and score \<open>- log 3\<close> with the draws \<open>1/4\<close>
  (kept) and \<open>3/4\<close> (dropped).
\<close>

theorem factor_resample_witness:
  "(\<exists>this1 q. factor_body st_second 0 2 (Fin (ln 3)) 0 = Inr this1 \<and>
      obsWeights this1 0 =
        Some [\<lparr>wbar = Fin 0, mnk = Fin 1\<rparr>, \<lparr>wbar = Fin (ln 2), mnk = Fin 2\<rparr>] \<and>
      buffer this1 = [q] \<and> weight q = Fin (ln 3 - ln 2) \<and>
      numChildrenToSpawn q = Fin 2 \<and> multiplicity q = Fin 1) \<and>
   (\<exists>this1 q. factor_body st_two 0 2 (Fin (ln 3)) 0 = Inr this1 \<and>
      obsWeights this1 0 =
        Some [\<lparr>wbar = Fin 0, mnk = Fin 2\<rparr>, \<lparr>wbar = Fin (ln 2), mnk = Fin 1\<rparr>] \<and>
      buffer this1 = [q] \<and> weight q = Fin (ln 3) \<and>
      numChildrenToSpawn q = Fin 1 \<and> multiplicity q = Fin 1) \<and>
   (\<exists>this1 q. factor_body st_second 0 2 (Fin (- ln 3)) (1 / 4) = Inr this1 \<and>
      obsWeights this1 0 =
        Some [\<lparr>wbar = Fin 0, mnk = Fin 1\<rparr>, \<lparr>wbar = Fin (ln 2 - ln 3), mnk = Fin 1\<rparr>] \<and>
      buffer this1 = [q] \<and> weight q = Fin (ln 2 - ln 3) \<and> numChildrenToSpawn q = Fin 1) \<and>
   (\<exists>this1. factor_body st_second 0 2 (Fin (- ln 3)) (3 / 4) = Inr this1 \<and>
      obsWeights this1 0 =
        Some [\<lparr>wbar = Fin 0, mnk = Fin 1\<rparr>, \<lparr>wbar = Fin (ln 2 - ln 3), mnk = Fin 0\<rparr>] \<and>
      buffer this1 = [])"
proof -
  have i1: "\<exists>this1 c. factor_body st_second 0 2 (Fin (ln 3)) (0) = Inr this1 \<and>
     obsWeights this1 0 = Some ([\<lparr>wbar = Fin 0, mnk = Fin 1\<rparr>] @ [\<lparr>wbar = Fin (ln 2), mnk = c\<rparr>]) \<and>
     (jslt (Fin (ln 3 - ln 2)) (Fin 0) \<longrightarrow>
        (if jslt (Math_log (Fin (0))) (Fin (ln 3 - ln 2))
         then c = Fin 1 \<and>
              (\<exists>q. buffer this1 = buffer st_second @ [q] \<and> weight q = Fin (ln 2) \<and>
                   numChildrenToSpawn q = Fin 1)
         else c = Fin 0 \<and> buffer this1 = buffer st_second)) \<and>
     (jsge (Fin (ln 3 - ln 2)) (Fin 0) \<longrightarrow>
        c = (if jsle (foldl jsadd (Fin 0) (map mnk [\<lparr>wbar = Fin 0, mnk = Fin 1\<rparr>]))
                  (num (min (bufferSize st_second) (int (length [\<lparr>wbar = Fin 0, mnk = Fin 1\<rparr>]))))
             then Math_ceil (Math_exp (Fin (ln 3 - ln 2))) else Math_floor (Math_exp (Fin (ln 3 - ln 2)))) \<and>
        (\<exists>q. buffer this1 = buffer st_second @ [q] \<and> weight q = jssub (Fin (ln 3)) (Math_log c) \<and>
             (if int (length (buffer st_second)) < bufferSize st_second
              then numChildrenToSpawn q = c \<and> multiplicity q = multiplicity (initParticle 0 0 :: (nat, nat, nat) particle)
              else numChildrenToSpawn q = Fin 1 \<and>
                   multiplicity q = jsmul (multiplicity (initParticle 0 0 :: (nat, nat, nat) particle)) c)))"
    by (rule factor_resample [where p = "initParticle 0 0"])
      (simp_all add: st_second_def st_fresh_def initParticle_def new_wbar_up jssub_def)
  have i2: "\<exists>this1 c. factor_body st_two 0 2 (Fin (ln 3)) (0) = Inr this1 \<and>
     obsWeights this1 0 = Some ([\<lparr>wbar = Fin 0, mnk = Fin 2\<rparr>] @ [\<lparr>wbar = Fin (ln 2), mnk = c\<rparr>]) \<and>
     (jslt (Fin (ln 3 - ln 2)) (Fin 0) \<longrightarrow>
        (if jslt (Math_log (Fin (0))) (Fin (ln 3 - ln 2))
         then c = Fin 1 \<and>
              (\<exists>q. buffer this1 = buffer st_two @ [q] \<and> weight q = Fin (ln 2) \<and>
                   numChildrenToSpawn q = Fin 1)
         else c = Fin 0 \<and> buffer this1 = buffer st_two)) \<and>
     (jsge (Fin (ln 3 - ln 2)) (Fin 0) \<longrightarrow>
        c = (if jsle (foldl jsadd (Fin 0) (map mnk [\<lparr>wbar = Fin 0, mnk = Fin 2\<rparr>]))
                  (num (min (bufferSize st_two) (int (length [\<lparr>wbar = Fin 0, mnk = Fin 2\<rparr>]))))
             then Math_ceil (Math_exp (Fin (ln 3 - ln 2))) else Math_floor (Math_exp (Fin (ln 3 - ln 2)))) \<and>
        (\<exists>q. buffer this1 = buffer st_two @ [q] \<and> weight q = jssub (Fin (ln 3)) (Math_log c) \<and>
             (if int (length (buffer st_two)) < bufferSize st_two
              then numChildrenToSpawn q = c \<and> multiplicity q = multiplicity (initParticle 0 0 :: (nat, nat, nat) particle)
              else numChildrenToSpawn q = Fin 1 \<and>
                   multiplicity q = jsmul (multiplicity (initParticle 0 0 :: (nat, nat, nat) particle)) c)))"
    by (rule factor_resample [where p = "initParticle 0 0"])
      (simp_all add: st_two_def st_fresh_def initParticle_def new_wbar_up jssub_def)
  have i3: "\<exists>this1 c. factor_body st_second 0 2 (Fin (- ln 3)) (1 / 4) = Inr this1 \<and>
     obsWeights this1 0 = Some ([\<lparr>wbar = Fin 0, mnk = Fin 1\<rparr>] @ [\<lparr>wbar = Fin (ln 2 - ln 3), mnk = c\<rparr>]) \<and>
     (jslt (Fin (- ln 2)) (Fin 0) \<longrightarrow>
        (if jslt (Math_log (Fin (1 / 4))) (Fin (- ln 2))
         then c = Fin 1 \<and>
              (\<exists>q. buffer this1 = buffer st_second @ [q] \<and> weight q = Fin (ln 2 - ln 3) \<and>
                   numChildrenToSpawn q = Fin 1)
         else c = Fin 0 \<and> buffer this1 = buffer st_second)) \<and>
     (jsge (Fin (- ln 2)) (Fin 0) \<longrightarrow>
        c = (if jsle (foldl jsadd (Fin 0) (map mnk [\<lparr>wbar = Fin 0, mnk = Fin 1\<rparr>]))
                  (num (min (bufferSize st_second) (int (length [\<lparr>wbar = Fin 0, mnk = Fin 1\<rparr>]))))
             then Math_ceil (Math_exp (Fin (- ln 2))) else Math_floor (Math_exp (Fin (- ln 2)))) \<and>
        (\<exists>q. buffer this1 = buffer st_second @ [q] \<and> weight q = jssub (Fin (- ln 3)) (Math_log c) \<and>
             (if int (length (buffer st_second)) < bufferSize st_second
              then numChildrenToSpawn q = c \<and> multiplicity q = multiplicity (initParticle 0 0 :: (nat, nat, nat) particle)
              else numChildrenToSpawn q = Fin 1 \<and>
                   multiplicity q = jsmul (multiplicity (initParticle 0 0 :: (nat, nat, nat) particle)) c)))"
    by (rule factor_resample [where p = "initParticle 0 0"])
      (simp_all add: st_second_def st_fresh_def initParticle_def new_wbar_down jssub_def)
  have i4: "\<exists>this1 c. factor_body st_second 0 2 (Fin (- ln 3)) (3 / 4) = Inr this1 \<and>
     obsWeights this1 0 = Some ([\<lparr>wbar = Fin 0, mnk = Fin 1\<rparr>] @ [\<lparr>wbar = Fin (ln 2 - ln 3), mnk = c\<rparr>]) \<and>
     (jslt (Fin (- ln 2)) (Fin 0) \<longrightarrow>
        (if jslt (Math_log (Fin (3 / 4))) (Fin (- ln 2))
         then c = Fin 1 \<and>
              (\<exists>q. buffer this1 = buffer st_second @ [q] \<and> weight q = Fin (ln 2 - ln 3) \<and>
                   numChildrenToSpawn q = Fin 1)
         else c = Fin 0 \<and> buffer this1 = buffer st_second)) \<and>
     (jsge (Fin (- ln 2)) (Fin 0) \<longrightarrow>
        c = (if jsle (foldl jsadd (Fin 0) (map mnk [\<lparr>wbar = Fin 0, mnk = Fin 1\<rparr>]))
                  (num (min (bufferSize st_second) (int (length [\<lparr>wbar = Fin 0, mnk = Fin 1\<rparr>]))))
             then Math_ceil (Math_exp (Fin (- ln 2))) else Math_floor (Math_exp (Fin (- ln 2)))) \<and>
        (\<exists>q. buffer this1 = buffer st_second @ [q] \<and> weight q = jssub (Fin (- ln 3)) (Math_log c) \<and>
             (if int (length (buffer st_second)) < bufferSize st_second
              then numChildrenToSpawn q = c \<and> multiplicity q = multiplicity (initParticle 0 0 :: (nat, nat, nat) particle)
              else numChildrenToSpawn q = Fin 1 \<and>
                   multiplicity q = jsmul (multiplicity (initParticle 0 0 :: (nat, nat, nat) particle)) c)))"
    by (rule factor_resample [where p = "initParticle 0 0"])
      (simp_all add: st_second_def st_fresh_def initParticle_def new_wbar_down jssub_def)
  from i1 have e1: "\<exists>this1 q. factor_body st_second 0 2 (Fin (ln 3)) 0 = Inr this1 \<and>
      obsWeights this1 0 =
        Some [\<lparr>wbar = Fin 0, mnk = Fin 1\<rparr>, \<lparr>wbar = Fin (ln 2), mnk = Fin 2\<rparr>] \<and>
      buffer this1 = [q] \<and> weight q = Fin (ln 3 - ln 2) \<and>
      numChildrenToSpawn q = Fin 2 \<and> multiplicity q = Fin 1"
    by (auto simp: st_second_def st_fresh_def initParticle_def jsge_def jsle_def jssub_def num_def
        exp_ratio ceil_ratio)
  from i2 have e2: "\<exists>this1 q. factor_body st_two 0 2 (Fin (ln 3)) 0 = Inr this1 \<and>
      obsWeights this1 0 =
        Some [\<lparr>wbar = Fin 0, mnk = Fin 2\<rparr>, \<lparr>wbar = Fin (ln 2), mnk = Fin 1\<rparr>] \<and>
      buffer this1 = [q] \<and> weight q = Fin (ln 3) \<and>
      numChildrenToSpawn q = Fin 1 \<and> multiplicity q = Fin 1"
    by (auto simp: st_two_def st_fresh_def initParticle_def jsge_def jsle_def jssub_def num_def
        exp_ratio floor_ratio)
  from i3 have e3: "\<exists>this1 q. factor_body st_second 0 2 (Fin (- ln 3)) (1 / 4) = Inr this1 \<and>
      obsWeights this1 0 =
        Some [\<lparr>wbar = Fin 0, mnk = Fin 1\<rparr>, \<lparr>wbar = Fin (ln 2 - ln 3), mnk = Fin 1\<rparr>] \<and>
      buffer this1 = [q] \<and> weight q = Fin (ln 2 - ln 3) \<and> numChildrenToSpawn q = Fin 1"
    by (auto simp: st_second_def st_fresh_def ln_quarter)
  from i4 have e4: "\<exists>this1. factor_body st_second 0 2 (Fin (- ln 3)) (3 / 4) = Inr this1 \<and>
      obsWeights this1 0 =
        Some [\<lparr>wbar = Fin 0, mnk = Fin 1\<rparr>, \<lparr>wbar = Fin (ln 2 - ln 3), mnk = Fin 0\<rparr>] \<and>
      buffer this1 = []"
    by (auto simp: st_second_def st_fresh_def ln_three_quarters)
  from e1 e2 e3 e4 show ?thesis by (intro conjI)
qed

section \<open>The size of the buffer\<close>

text \<open>A run with \<^verbatim>\<open>bufferSize = 1\<close>: three fresh particles call \<^verbatim>\<open>factor\<close> with score \<open>0\<close>.\<close>

lemma st_fresh_reached: "aSMC 0 0 1 1 0 = Inr (st_fresh, Resume 0 0)"
  by (simp add: aSMC_def control_def launch_def st_fresh_def initParticle_def)

lemma st_second_reached: "factor st_fresh 0 2 (Fin 0) 0 0 = Inr (st_second, Resume 0 0)"
  by (simp add: factor_def factor_body_def control_def launch_def st_fresh_def st_second_def
      initParticle_def)

lemma body_second:
  "factor_body st_second 0 2 (Fin 0) u = Inr (st_third\<lparr>activeParticle := Some pushed\<rparr>)"
  by (simp add: factor_body_def st_fresh_def st_second_def st_third_def pushed_def initParticle_def
      new_wbar_second ncw_second jsgt_def Let_def)

lemma st_third_reached: "factor st_second 0 2 (Fin 0) 0 (1 / 2) = Inr (st_third, Resume 0 0)"
  by (simp add: factor_def body_second)
    (simp add: control_def launch_def st_third_def st_fresh_def initParticle_def)

lemma body_third:
  "factor_body st_third 0 2 (Fin 0) u = Inr (st_over\<lparr>activeParticle := Some pushed\<rparr>)"
  by (simp add: factor_body_def st_fresh_def st_over_def st_third_def pushed_def initParticle_def
      new_wbar_third ncw_third jsgt_def Let_def)

lemma st_over_reached:
  "factor st_third 0 2 (Fin 0) (1 / 2) (7 / 10) = Inr (st_over, Resume 0 0)"
  by (simp add: factor_def body_third)
    (simp add: control_def launch_def st_over_def st_fresh_def initParticle_def)

lemma run_to_st_over:
  "aSMC_run 0 0 1 1 0
     [Factor 0 2 (Fin 0) 0 0, Factor 0 2 (Fin 0) 0 (1 / 2), Factor 0 2 (Fin 0) (1 / 2) (7 / 10)] =
     Inr (st_over, Resume 0 0)"
  by (simp add: aSMC_run_def st_fresh_reached st_second_reached st_third_reached st_over_reached)

text \<open>
  Claim C2 as stated fails on that run. After the second call the buffer holds one
  particle and is full. The third call awards one child: the survivor is pushed all the
  same, and the scheduler steps with two particles in a buffer of size one.
\<close>

theorem buffer_exceeds_bufferSize_counterexample:
  "aSMC_run 0 0 1 1 0
     [Factor 0 2 (Fin 0) 0 0, Factor 0 2 (Fin 0) 0 (1 / 2), Factor 0 2 (Fin 0) (1 / 2) (7 / 10)] =
     Inr (st_over, Resume 0 0) \<and>
   bufferSize st_over = 1 \<and> length (buffer st_over) = 2 \<and>
   int (length (buffer st_third)) = bufferSize st_third \<and>
   factor_body st_third 0 2 (Fin 0) (1 / 2) = Inr (st_over\<lparr>activeParticle := Some pushed\<rparr>) \<and>
   length (buffer (st_over\<lparr>activeParticle := Some pushed\<rparr>)) = length (buffer st_third) + 1"
  by (simp add: run_to_st_over body_third) (simp add: st_over_def st_third_def st_fresh_def)

text \<open>
  Claim C2 as the code has it. When \<^verbatim>\<open>factor\<close> awards \<open>c \<ge> 1\<close> children to a
  particle at a second or later arrival while the buffer is full, the multiplicity of the
  survivor is multiplied by \<open>c\<close>, its number of children to spawn is set to \<open>1\<close>, and
  the survivor is pushed onto the buffer: the buffer grows by one particle.
\<close>

theorem buffer_full_push:
  assumes "activeParticle this = Some p"
    and "n = (case factorIndex p of None \<Rightarrow> 0 | Some fi \<Rightarrow> fi + 1)"
    and "obsWeights this n = Some lk" and "lk \<noteq> []"
    and "W = jsadd (weight p) score" and "W \<noteq> NegInf"
    and "c = fst (numChildrenAndWeight (bufferSize this) lk W (new_wbar lk (multiplicity p) W) u)"
    and "jsge c (Fin 1)"
    and "bufferSize this \<le> int (length (buffer this))"
  shows "\<exists>this1 q. factor_body this s cc score u = Inr this1 \<and>
           buffer this1 = buffer this @ [q] \<and>
           multiplicity q = jsmul (multiplicity p) c \<and>
           numChildrenToSpawn q = Fin 1 \<and>
           length (buffer this1) = length (buffer this) + 1"
proof -
  from assms(8) have pos: "jsgt c (Fin 0)"
    by (cases c) (simp_all add: jsge_def jsle_def jsgt_def)
  with assms have "\<exists>this1 q. factor_body this s cc score u = Inr this1 \<and>
           buffer this1 = buffer this @ [q] \<and>
           multiplicity q = jsmul (multiplicity p) c \<and>
           numChildrenToSpawn q = Fin 1"
    by (simp add: factor_body_def Let_def)
  then obtain this1 q where b: "factor_body this s cc score u = Inr this1"
    and q: "buffer this1 = buffer this @ [q]" "multiplicity q = jsmul (multiplicity p) c"
      "numChildrenToSpawn q = Fin 1"
    by blast
  from b q show ?thesis by simp
qed

theorem buffer_full_push_witness:
  "\<exists>this1 q. factor_body st_third 0 2 (Fin 0) (1 / 2) = Inr this1 \<and>
           buffer this1 = buffer st_third @ [q] \<and>
           multiplicity q = jsmul (multiplicity (initParticle 0 0 :: (nat, nat, nat) particle)) (Fin 1) \<and>
           numChildrenToSpawn q = Fin 1 \<and>
           length (buffer this1) = length (buffer st_third) + 1"
  by (rule buffer_full_push [where p = "initParticle 0 0" and n = 0
        and lk = "[\<lparr>wbar = Fin 0, mnk = Fin 1\<rparr>, \<lparr>wbar = Fin 0, mnk = Fin 1\<rparr>]" and W = "Fin 0"])
    (simp_all add: st_third_def st_fresh_def initParticle_def new_wbar_third ncw_third jsge_def
      jsle_def)

section \<open>The constructor\<close>

text \<open>
  Claim C9 as stated fails: with \<^verbatim>\<open>numParticles = -1\<close> and \<^verbatim>\<open>bufferSize = 0\<close>
  the constructor raises nothing and launches a fresh particle.
\<close>

theorem aSMC_no_validation_counterexample:
  "aSMC 0 0 (- 1) 0 0 =
     Inr (\<lparr>buffer = [], bufferSize = 0, numParticles = - 1, obsWeights = Map.empty,
           exitedParticles = [], exitK = 0, this_store = 0, oldStore = 0,
           activeParticle = Some (initParticle (0::nat) (0::nat) :: (nat, nat, nat) particle)\<rparr>, Resume 0 0)"
  by (simp add: aSMC_def control_def launch_def initParticle_def)

text \<open>
  Claim C9 as the code has it. The constructor validates nothing. With a
  \<^verbatim>\<open>bufferSize\<close> that is not positive it seeds no particle, and its scheduler step
  launches a fresh particle, whatever \<^verbatim>\<open>numParticles\<close> is. And for every
  \<^verbatim>\<open>bufferSize\<close>, \<^verbatim>\<open>numParticles\<close> is only stored: another value, positive or
  not, gives the same error, or the same state and resumption but for that field.
\<close>

theorem aSMC_no_validation:
  "(bufSize \<le> 0 \<and> 0 \<le> u \<and> u < 1 \<longrightarrow>
      (aSMC s exK numP bufSize u :: error + ('k, 's, 'v) asmc \<times> ('k, 's) outcome) =
        Inr (\<lparr>buffer = [], bufferSize = bufSize, numParticles = numP, obsWeights = Map.empty,
           exitedParticles = [], exitK = exK, this_store = s, oldStore = s,
           activeParticle = Some (initParticle s exK)\<rparr>, Resume exK s)) \<and>
   (case (aSMC s exK numP bufSize u :: error + ('k, 's, 'v) asmc \<times> ('k, 's) outcome) of
      Inl e \<Rightarrow> (aSMC s exK numP' bufSize u :: error + ('k, 's, 'v) asmc \<times> ('k, 's) outcome) = Inl e
    | Inr (this, out) \<Rightarrow> aSMC s exK numP' bufSize u = Inr (this\<lparr>numParticles := numP'\<rparr>, out))"
proof (intro conjI impI)
  assume a: "bufSize \<le> 0 \<and> 0 \<le> u \<and> u < 1"
  then have "bufSize * 3 div 5 \<le> 0" by linarith
  then have "nat (bufSize * 3 div 5) = 0" by simp
  moreover have "\<lfloor>u\<rfloor> = 0" using a by (simp add: floor_eq_iff)
  ultimately show "(aSMC s exK numP bufSize u :: error + ('k, 's, 'v) asmc \<times> ('k, 's) outcome) =
        Inr (\<lparr>buffer = [], bufferSize = bufSize, numParticles = numP, obsWeights = Map.empty,
           exitedParticles = [], exitK = exK, this_store = s, oldStore = s,
           activeParticle = Some (initParticle s exK)\<rparr>, Resume exK s)"
    by (simp add: aSMC_def control_def launch_def initParticle_def Let_def)
next
  show "case (aSMC s exK numP bufSize u :: error + ('k, 's, 'v) asmc \<times> ('k, 's) outcome) of
      Inl e \<Rightarrow> (aSMC s exK numP' bufSize u :: error + ('k, 's, 'v) asmc \<times> ('k, 's) outcome) = Inl e
    | Inr (this, out) \<Rightarrow> aSMC s exK numP' bufSize u = Inr (this\<lparr>numParticles := numP'\<rparr>, out)"
    by (auto simp add: aSMC_def control_def launch_def Let_def)
qed

theorem aSMC_no_validation_witness:
  "aSMC 0 0 (- 1) 0 (1 / 2) =
     Inr (\<lparr>buffer = [], bufferSize = 0, numParticles = - 1, obsWeights = Map.empty,
           exitedParticles = [], exitK = 0, this_store = 0, oldStore = 0,
           activeParticle = Some (initParticle (0::nat) (0::nat) :: (nat, nat, nat) particle)\<rparr>,
          Resume 0 0) \<and>
   aSMC 0 0 7 0 (1 / 2) =
     Inr (\<lparr>buffer = [], bufferSize = 0, numParticles = 7, obsWeights = Map.empty,
           exitedParticles = [], exitK = 0, this_store = 0, oldStore = 0,
           activeParticle = Some (initParticle (0::nat) (0::nat) :: (nat, nat, nat) particle)\<rparr>,
          Resume 0 0)"
  using aSMC_no_validation [of 0 "1 / 2" "0::nat" "0::nat" "- 1" 7, where ?'v = nat]
  by (elim conjE) simp

section \<open>Counts of the buffered particles\<close>

lemma count_ok_cases: "count_ok x \<longleftrightarrow> x = PosInf \<or> (\<exists>z::int. 1 \<le> z \<and> x = Fin (of_int z))"
proof
  assume "count_ok x"
  then show "x = PosInf \<or> (\<exists>z::int. 1 \<le> z \<and> x = Fin (of_int z))"
  proof (cases x)
    case (Fin r)
    with \<open>count_ok x\<close> have r: "1 \<le> r" "r = of_int \<lfloor>r\<rfloor>" by (simp_all add: count_ok_def)
    then have "1 \<le> \<lfloor>r\<rfloor>" by linarith
    with r Fin show ?thesis by blast
  qed (simp_all add: count_ok_def)
next
  assume "x = PosInf \<or> (\<exists>z::int. 1 \<le> z \<and> x = Fin (of_int z))"
  then show "count_ok x" by (auto simp: count_ok_def)
qed

lemma count_ok_Fin_int: "count_ok (Fin (of_int z)) \<longleftrightarrow> 1 \<le> z"
  by (simp add: count_ok_def)

lemma count_ok_ge1: "count_ok x \<Longrightarrow> jsge x (Fin 1)"
  by (auto simp: count_ok_cases jsge_def jsle_def)

lemma count_ok_mul: "count_ok m \<Longrightarrow> count_ok c \<Longrightarrow> count_ok (jsmul m c)"
proof -
  assume "count_ok m" "count_ok c"
  then consider "m = PosInf" "c = PosInf" | z where "m = PosInf" "1 \<le> z" "c = Fin (of_int z)"
    | z where "c = PosInf" "1 \<le> z" "m = Fin (of_int z)"
    | z z' where "1 \<le> z" "1 \<le> z'" "m = Fin (of_int z)" "c = Fin (of_int z')"
    unfolding count_ok_cases by blast
  then show ?thesis
  proof cases
    case 1 then show ?thesis by (simp add: count_ok_def)
  next
    case 2 then show ?thesis by (simp add: count_ok_def sgn_if)
  next
    case 3 then show ?thesis by (simp add: count_ok_def sgn_if)
  next
    case 4
    then have "1 * 1 \<le> z * z'" by (intro mult_mono) simp_all
    then have "1 \<le> z * z'" by simp
    moreover have "jsmul m c = Fin (of_int (z * z'))" using 4 by simp
    ultimately show ?thesis by (simp only: count_ok_Fin_int)
  qed
qed

lemma count_ok_dec: "count_ok x \<Longrightarrow> jsgt x (Fin 1) \<Longrightarrow> count_ok (jssub x (Fin 1))"
proof -
  assume a: "count_ok x" "jsgt x (Fin 1)"
  then consider "x = PosInf" | z where "1 \<le> z" "x = Fin (of_int z)"
    unfolding count_ok_cases by blast
  then show ?thesis
  proof cases
    case 1 then show ?thesis by (simp add: jssub_def count_ok_def)
  next
    case 2
    with a(2) have "(1::real) < of_int z" by (simp add: jsgt_def)
    then have "1 \<le> z - 1" by linarith
    moreover have "jssub x (Fin 1) = Fin (of_int (z - 1))" using 2 by (simp add: jssub_def)
    ultimately show ?thesis by (simp only: count_ok_Fin_int)
  qed
qed

lemma ceil_count_ok: "jsgt (Math_ceil x) (Fin 0) \<Longrightarrow> count_ok (Math_ceil x)"
proof (cases x)
  case (Fin r)
  assume "jsgt (Math_ceil x) (Fin 0)"
  with Fin have "0 < \<lceil>r\<rceil>" by (simp add: jsgt_def)
  then have "1 \<le> \<lceil>r\<rceil>" by linarith
  then show ?thesis using Fin by (simp only: Math_ceil.simps count_ok_Fin_int)
qed (simp_all add: jsgt_def count_ok_def)

lemma floor_count_ok: "jsgt (Math_floor x) (Fin 0) \<Longrightarrow> count_ok (Math_floor x)"
proof (cases x)
  case (Fin r)
  assume "jsgt (Math_floor x) (Fin 0)"
  with Fin have "0 < \<lfloor>r\<rfloor>" by (simp add: jsgt_def)
  then have "1 \<le> \<lfloor>r\<rfloor>" by linarith
  then show ?thesis using Fin by (simp only: Math_floor.simps count_ok_Fin_int)
qed (simp_all add: jsgt_def count_ok_def)

lemma ncw_count_ok:
  assumes "jsgt (fst (numChildrenAndWeight b lk W wb u)) (Fin 0)"
  shows "count_ok (fst (numChildrenAndWeight b lk W wb u))"
proof (cases "jslt (jssub W wb) (Fin 0)")
  case True
  then have "fst (numChildrenAndWeight b lk W wb u) = Fin 1 \<or> fst (numChildrenAndWeight b lk W wb u) = Fin 0"
    by (simp add: numChildrenAndWeight_def)
  with assms show ?thesis by (auto simp: count_ok_def jsgt_def)
next
  case False
  then have "fst (numChildrenAndWeight b lk W wb u) = Math_ceil (Math_exp (jssub W wb)) \<or>
     fst (numChildrenAndWeight b lk W wb u) = Math_floor (Math_exp (jssub W wb))"
    by (simp add: numChildrenAndWeight_def Let_def)
  with assms show ?thesis using ceil_count_ok floor_count_ok by metis
qed


lemma particle_ok_dec:
  "particle_ok p \<Longrightarrow> jsgt (numChildrenToSpawn p) (Fin 1) \<Longrightarrow>
   particle_ok (p\<lparr>numChildrenToSpawn := jssub (numChildrenToSpawn p) (Fin 1)\<rparr>)"
  by (auto simp: particle_ok_def count_ok_dec jsgt_def)

lemma list_all_update: "list_all P xs \<Longrightarrow> P x \<Longrightarrow> list_all P (xs[i := x])"
  by (induction xs arbitrary: i) (auto split: nat.splits)

lemma launch_state_ok:
  "list_all particle_ok (buffer this) \<Longrightarrow> count_ok (multiplicity p) \<Longrightarrow>
   launch this p = Inr (this', out) \<Longrightarrow> state_ok this'"
  by (auto simp: launch_def state_ok_def)

lemma control_state_ok:
  assumes "state_ok this" and "control this numP u = Inr (this', out)"
  shows "state_ok this'"
proof -
  define this1 where "this1 = this\<lparr>numParticles :=
                    (case numP of None \<Rightarrow> numParticles this
                     | Some n \<Rightarrow> numParticles this + n)\<rparr>"
  define i where "i = \<lfloor>(of_int (int (length (buffer this1))) + 1) * u\<rfloor>"
  have buf: "list_all particle_ok (buffer this1)"
    using assms(1) by (simp add: state_ok_def this1_def)
  have c: "control this numP u =
     (if i = int (length (buffer this1))
         then launch this1 (initParticle (this_store this1) (exitK this1))
         else if i < 0 \<or> int (length (buffer this1)) < i then Inl PropertyOfUndefined
         else
           (let launchP = buffer this1 ! nat i
            in if jsgt (numChildrenToSpawn launchP) (Fin 1)
               then launch
                      (this1\<lparr>buffer := (buffer this1)
                          [nat i := launchP\<lparr>numChildrenToSpawn :=
                                      jssub (numChildrenToSpawn launchP) (Fin 1)\<rparr>]\<rparr>)
                      (copyOneParticle launchP)
               else Inl (NotAFunction ''util.deleteIndex'')))"
    by (simp add: control_def this1_def i_def Let_def)
  show ?thesis
  proof (cases "i = int (length (buffer this1))")
    case True
    with c assms(2) have "launch this1 (initParticle (this_store this1) (exitK this1)) = Inr (this', out)"
      by simp
    moreover have "count_ok (multiplicity (initParticle (this_store this1) (exitK this1) :: ('a, 'b, 'c) particle))"
      by (simp add: initParticle_def count_ok_def)
    ultimately show ?thesis using buf launch_state_ok by blast
  next
    case False
    with c assms(2) have rng: "0 \<le> i" "i < int (length (buffer this1))"
      by (auto split: if_splits)
    define launchP where "launchP = buffer this1 ! nat i"
    have mem: "launchP \<in> set (buffer this1)" using rng by (simp add: launchP_def)
    then have ok: "particle_ok launchP" using buf by (simp add: list_all_iff)
    from c assms(2) False rng have gt: "jsgt (numChildrenToSpawn launchP) (Fin 1)"
      by (auto simp: launchP_def Let_def split: if_splits)
    with c assms(2) False rng have l: "launch
                      (this1\<lparr>buffer := (buffer this1)
                          [nat i := launchP\<lparr>numChildrenToSpawn :=
                                      jssub (numChildrenToSpawn launchP) (Fin 1)\<rparr>]\<rparr>)
                      (copyOneParticle launchP) = Inr (this', out)"
      by (simp add: launchP_def Let_def)
    have "list_all particle_ok (buffer (this1\<lparr>buffer := (buffer this1)
                          [nat i := launchP\<lparr>numChildrenToSpawn :=
                                      jssub (numChildrenToSpawn launchP) (Fin 1)\<rparr>]\<rparr>))"
      using buf ok gt by (simp add: list_all_update particle_ok_dec)
    moreover have "count_ok (multiplicity (copyOneParticle launchP))"
      using ok by (simp add: copyOneParticle_def particle_ok_def)
    ultimately show ?thesis using l launch_state_ok by blast
  qed
qed


lemma factor_body_state_ok:
  assumes "state_ok this" and "factor_body this s cc score u = Inr this'"
  shows "state_ok this'"
proof -
  from assms(2) obtain p where p: "activeParticle this = Some p"
    by (auto simp: factor_body_def split: option.splits)
  with assms(1) have m: "count_ok (multiplicity p)" and buf: "list_all particle_ok (buffer this)"
    by (simp_all add: state_ok_def)
  define n where "n = (case factorIndex p of None \<Rightarrow> 0 | Some fi \<Rightarrow> fi + 1)"
  define ap where "ap = p\<lparr>weight := jsadd (weight p) score, continuation := cc, store := s,
                      factorIndex := Some n\<rparr>"
  have apm: "multiplicity ap = multiplicity p" by (simp add: ap_def)
  show ?thesis
  proof (cases "weight ap = NegInf")
    case True
    with assms(2) p have "this' = this\<lparr>activeParticle := Some ap\<rparr>"
      by (simp add: factor_body_def Let_def ap_def n_def)
    then show ?thesis using m buf apm by (simp add: state_ok_def)
  next
    case fin: False
    show ?thesis
    proof (cases "obsWeights this n")
      case None
      with assms(2) p fin have "this' = this\<lparr>obsWeights := (obsWeights this)
                                  (n \<mapsto> [\<lparr>wbar = weight ap, mnk = Fin 1\<rparr>]),
                               activeParticle := Some (ap\<lparr>numChildrenToSpawn := Fin 1,
                                                          finalWeight := weight ap\<rparr>)\<rparr>"
        by (simp add: factor_body_def Let_def ap_def n_def)
      then show ?thesis using m buf apm by (simp add: state_ok_def)
    next
      case (Some lk)
      define c where "c = fst (numChildrenAndWeight (bufferSize this) lk (weight ap)
                                 (new_wbar lk (multiplicity ap) (weight ap)) u)"
      show ?thesis
      proof (cases "jsgt c (Fin 0)")
        case True
        then have cok: "count_ok c" unfolding c_def by (rule ncw_count_ok)
        have one: "count_ok (Fin 1)" by (simp add: count_ok_def)
        from assms(2) p fin Some True obtain q where
          q: "this' = this\<lparr>obsWeights := (obsWeights this)
                  (n \<mapsto> lk @ [\<lparr>wbar = new_wbar lk (multiplicity ap) (weight ap), mnk = c\<rparr>]),
                activeParticle := Some q, buffer := buffer this @ [q]\<rparr>"
          and qf: "factorIndex q = Some n"
          and qc: "numChildrenToSpawn q = c \<and> multiplicity q = multiplicity p \<or>
                   numChildrenToSpawn q = Fin 1 \<and> multiplicity q = jsmul (multiplicity p) c"
          by (auto simp: factor_body_def Let_def ap_def n_def c_def split: if_splits)
        from qc m cok one have "particle_ok q"
          by (auto simp: particle_ok_def count_ok_mul)
        then show ?thesis using q buf by (simp add: state_ok_def particle_ok_def)
      next
        case False
        with assms(2) p fin Some have "this' = this\<lparr>obsWeights := (obsWeights this)
                  (n \<mapsto> lk @ [\<lparr>wbar = new_wbar lk (multiplicity ap) (weight ap), mnk = c\<rparr>]),
                activeParticle := Some ap\<rparr>"
          by (auto simp: factor_body_def Let_def ap_def n_def c_def split: if_splits)
        then show ?thesis using m buf apm by (simp add: state_ok_def)
      qed
    qed
  qed
qed

lemma factor_state_ok:
  "state_ok this \<Longrightarrow> factor this s cc score u uc = Inr (this', out) \<Longrightarrow> state_ok this'"
  by (auto simp: factor_def split: sum.splits dest: factor_body_state_ok control_state_ok)

lemma exit_state_ok:
  assumes "state_ok this" and "exit_hook this s rv uc = Inr (this', out)"
  shows "state_ok this'"
proof -
  from assms(2) obtain p where p: "activeParticle this = Some p"
    by (auto simp: exit_hook_def split: option.splits)
  define ap where "ap = p\<lparr>retval := Some rv, completed := True, weight := finalWeight p\<rparr>"
  define this1 where "this1 = this\<lparr>activeParticle := Some ap,
                            exitedParticles := exitedParticles this @ [ap]\<rparr>"
  have ok1: "state_ok this1" using assms(1) p by (simp add: state_ok_def this1_def ap_def)
  from assms(2) p have "control this1 None uc = Inr (this', out) \<or> this' = this1"
    by (auto simp: exit_hook_def Let_def this1_def ap_def split: if_splits)
  then show ?thesis using ok1 control_state_ok by blast
qed

lemma step_state_ok: "state_ok this \<Longrightarrow> step this e = Inr (this', out) \<Longrightarrow> state_ok this'"
  by (cases e) (auto dest: factor_state_ok exit_state_ok)

lemma run_state_ok: "state_ok (fst r) \<Longrightarrow> run r evs = Inr (this', out) \<Longrightarrow> state_ok this'"
proof (induction r evs rule: run.induct)
  case (3 this k s e evs)
  then show ?case by (auto split: sum.splits dest: step_state_ok)
qed auto

lemma aSMC_state_ok: "aSMC s exK numP bufSize u = Inr (this', out) \<Longrightarrow> state_ok this'"
proof -
  assume a: "aSMC s exK numP bufSize u = Inr (this', out)"
  have "particle_ok (initParticle s exK :: ('a, 'b, 'c) particle)"
    by (simp add: particle_ok_def initParticle_def count_ok_def)
  then have "state_ok (\<lparr>buffer = replicate (nat ((bufSize * 3) div 5)) (initParticle s exK),
                  bufferSize = bufSize, numParticles = 0, obsWeights = Map.empty,
                  exitedParticles = [], exitK = exK, this_store = s, oldStore = s,
                  activeParticle = None\<rparr> :: ('a, 'b, 'c) asmc)"
    by (simp add: state_ok_def list_all_iff)
  with a show ?thesis unfolding aSMC_def Let_def by (rule control_state_ok[rotated])
qed

text \<open>
  Claim C6 as stated fails for the seeded particles: \<^verbatim>\<open>initParticle\<close> gives them
  \<^verbatim>\<open>numChildrenToSpawn = 0\<close>, and they sit in the buffer with it.
\<close>

theorem seeded_numChildrenToSpawn_counterexample:
  "aSMC_run 0 0 10 5 (9 / 10) [] = Inr (st_seeded, Resume 0 0) \<and>
   buffer st_seeded ! 0 = initParticle 0 0 \<and>
   numChildrenToSpawn (buffer st_seeded ! 0) = Fin 0 \<and>
   \<not> jsge (numChildrenToSpawn (buffer st_seeded ! 0)) (Fin 1)"
  by (simp add: aSMC_run_def aSMC_def control_def launch_def st_seeded_def initParticle_def
      jsge_def jsle_def numeral_3_eq_3)

text \<open>
  Claim C6 as the code has it. At every point of a run, every particle in the buffer has
  a multiplicity of at least \<open>1\<close>, and its number of children to spawn is at least \<open>1\<close>,
  unless it is a particle that has passed no observation yet, as the seeded ones, whose
  number of children to spawn is the \<open>0\<close> of \<^verbatim>\<open>initParticle\<close>.
\<close>

theorem buffered_counts:
  assumes "aSMC_run s exK numP bufSize u evs = Inr (this, out)" and "p \<in> set (buffer this)"
  shows "jsge (multiplicity p) (Fin 1) \<and>
         (jsge (numChildrenToSpawn p) (Fin 1) \<or>
          numChildrenToSpawn p = Fin 0 \<and> factorIndex p = None)"
proof -
  from assms(1) obtain r where r: "aSMC s exK numP bufSize u = Inr r" "run r evs = Inr (this, out)"
    by (auto simp: aSMC_run_def split: sum.splits)
  from r(1) have "state_ok (fst r)"
    using aSMC_state_ok [of s exK numP bufSize u "fst r" "snd r"] by simp
  then have "state_ok this" using r(2) by (rule run_state_ok)
  with assms(2) have "particle_ok p" by (simp add: state_ok_def list_all_iff)
  then show ?thesis by (auto simp: particle_ok_def count_ok_ge1)
qed

theorem buffered_counts_witness:
  "jsge (multiplicity pushed) (Fin 1) \<and>
   (jsge (numChildrenToSpawn pushed) (Fin 1) \<or>
    numChildrenToSpawn pushed = Fin 0 \<and> factorIndex pushed = None)"
  using buffered_counts [OF run_to_st_over, of pushed] by (simp add: st_over_def)

section \<open>\<^verbatim>\<open>factor\<close> and \<^verbatim>\<open>exit\<close>: the final weight\<close>






















end
